theory Spec2Isabelle
  imports Complex_Main "HOL-Library.Word"
begin

section \<open>Numbers, strings and sample data\<close>

text \<open>
  Python's floats are modelled as exact reals: rounding of the binary64 format is not
  represented. Python's unbounded integers are \<open>int\<close>. A Python \<open>str\<close> is a
  sequence of Unicode code points, modelled as a list of naturals.
\<close>

type_synonym pystr = "nat list"

definition str :: "string \<Rightarrow> pystr" where
  "str s = map of_char s"

text \<open>\<open>int(x)\<close> on a float truncates towards zero.\<close>

definition py_int :: "real \<Rightarrow> int" where
  "py_int x = (if x < 0 then \<lceil>x\<rceil> else \<lfloor>x\<rfloor>)"

text \<open>
  \<open>sf.read(path, dtype='int16')\<close> yields a matrix of 16-bit samples, one row per frame
  and one column per channel (a mono file is expanded to one column by
  \<open>np.expand_dims\<close>). A chunk is a slice of rows.
\<close>

type_synonym sample = "16 word"
type_synonym frame = "sample list"
type_synonym chunk = "frame list"

text \<open>\<open>np.zeros_like(chunk)\<close>: same shape, every entry zero.\<close>

definition zeros_like :: "chunk \<Rightarrow> chunk" where
  "zeros_like c = map (map (\<lambda>_. 0)) c"

text \<open>
  \<open>chunk * current_volume\<close>: an int16 matrix times a Python float is a float64 matrix.
\<close>

definition scale :: "chunk \<Rightarrow> real \<Rightarrow> real list list" where
  "scale c g = map (map (\<lambda>s. real_of_int (sint s) * g)) c"

text \<open>
  \<open>.astype(np.int16)\<close>: the fractional part is dropped (towards zero) and the integer
  is stored in 16 bits; a value outside the int16 range keeps its low 16 bits only.
\<close>

definition astype_int16 :: "real \<Rightarrow> sample" where
  "astype_int16 x = word_of_int (py_int x)"

definition astype_int16_chunk :: "real list list \<Rightarrow> chunk" where
  "astype_int16_chunk m = map (map astype_int16) m"

text \<open>Lines 100 to 104 of \<open>AudioThread.run\<close>: mute, then gain, then the cast.\<close>

definition mute_step :: "bool \<Rightarrow> chunk \<Rightarrow> chunk" where
  "mute_step is_muted c = (if is_muted then zeros_like c else c)"

definition process_chunk :: "bool \<Rightarrow> real \<Rightarrow> chunk \<Rightarrow> chunk" where
  "process_chunk is_muted current_volume c =
     astype_int16_chunk (scale (mute_step is_muted c) current_volume)"


section \<open>The streaming thread\<close>

datatype error_message = FileNotFound | OpenError | PlaybackError | PlaybackException

text \<open>
  What a run of the thread does to the outside, in order: messages shown through
  \<open>player.show_error_message\<close>, chunks written to the output stream, writes of
  \<open>player.playback_position\<close>, calls of \<open>player.update_visualization\<close>, the release of
  the stream, and the call of \<open>player.playback_finished\<close>.
\<close>

datatype event =
    ShowError error_message
  | StreamWrite chunk
  | PositionUpdate real
  | UpdateVisualization chunk nat
  | StreamClosed
  | PlaybackFinished

text \<open>
  What the thread meets in one iteration of its loop: the shared fields as it reads them
  (\<open>stop_flag\<close>, \<open>muted\<close>, \<open>volume\<close>), whether \<open>pause_event.wait()\<close> ever returns,
  whether \<open>stream.write\<close> succeeds and whether \<open>update_visualization\<close> returns
  without raising.
\<close>

record tick =
  t_stop_flag :: bool
  t_wait_returns :: bool
  t_muted :: bool
  t_volume :: real
  t_write_ok :: bool
  t_vis_ok :: bool

datatype loop_exit = Exhausted | StopRequested | WriteFailed | Raised | Blocked

definition chunk_size :: nat where
  "chunk_size = 1024"

text \<open>\<open>range(0, n, step)\<close> for a positive step.\<close>

definition py_range :: "nat \<Rightarrow> nat \<Rightarrow> nat list" where
  "py_range n step = map (\<lambda>k. k * step) [0 ..< (n + step - 1) div step]"

text \<open>\<open>xs[k:]\<close>: a negative start counts from the end and stops at the front.\<close>

definition slice_from :: "'a list \<Rightarrow> int \<Rightarrow> 'a list" where
  "slice_from xs k = (if k < 0 then drop (nat (int (length xs) + k)) xs else drop (nat k) xs)"

text \<open>\<open>xs[i:j]\<close> for \<open>0 \<le> i \<le> j\<close>.\<close>

definition slice :: "'a list \<Rightarrow> nat \<Rightarrow> nat \<Rightarrow> 'a list" where
  "slice xs i j = take (j - i) (drop i xs)"

text \<open>
  The body of the \<open>for\<close> loop of \<open>AudioThread.run\<close>, over the indices that
  \<open>range(0, len(data), chunk_size)\<close> yields. The position written after a chunk divides
  by the sample rate, which raises \<open>ZeroDivisionError\<close> for a rate of zero; that and a
  failing visualization call are caught by the outer handler of the loop.
\<close>

fun stream_loop :: "(nat \<Rightarrow> tick) \<Rightarrow> int \<Rightarrow> nat \<Rightarrow> frame list \<Rightarrow> nat list \<Rightarrow> event list \<times> loop_exit" where
  "stream_loop ctl current_frame samplerate data [] = ([], Exhausted)"
| "stream_loop ctl current_frame samplerate data (i # rest) =
     (let t = ctl (i div chunk_size) in
      if t_stop_flag t then ([], StopRequested)
      else if \<not> t_wait_returns t then ([], Blocked)
      else
        let c = slice data i (i + chunk_size) in
        if length c = 0 then ([], Exhausted)
        else
          let out = process_chunk (t_muted t) (t_volume t) c in
          if \<not> t_write_ok t then ([ShowError PlaybackError], WriteFailed)
          else if samplerate = 0 then ([StreamWrite out, ShowError PlaybackException], Raised)
          else
            let pos = real_of_int (current_frame + int i + int (length out)) / real samplerate * 1000;
                done = [StreamWrite out, PositionUpdate pos, UpdateVisualization out (length out)]
            in if \<not> t_vis_ok t then (done @ [ShowError PlaybackException], Raised)
               else (case stream_loop ctl current_frame samplerate data rest of
                       (evs, ex) \<Rightarrow> (done @ evs, ex)))"

text \<open>
  The collaborators of the program: the file system (\<open>os.path.isfile\<close>), the decoder
  (\<open>sf.read\<close> and \<open>sf.SoundFile\<close>, \<open>None\<close> when they raise; the result is the
  sample matrix and the sample rate), the output device (\<open>p.open\<close>, false when it
  raises), the tag reader (\<open>MutagenFile(path, easy=True)\<close>, \<open>None\<close> when it raises or
  returns \<open>None\<close>, else the tags as keys with their lists of values) and the platform's
  line separator \<open>os.linesep\<close>.
\<close>

record environment =
  isfile :: "pystr \<Rightarrow> bool"
  sf_read :: "pystr \<Rightarrow> (frame list \<times> nat) option"
  device_open :: bool
  mutagen_file :: "pystr \<Rightarrow> (pystr \<times> pystr list) list option"
  linesep :: pystr

text \<open>
  The \<open>finally\<close> block of the loop: the stream is released and
  \<open>player.playback_finished()\<close> is called, on every way out of the loop.
\<close>

definition finally_block :: "event list \<times> loop_exit \<Rightarrow> event list \<times> bool" where
  "finally_block r =
     (if snd r = Blocked then (fst r, False)
      else (fst r @ [StreamClosed, PlaybackFinished], True))"

text \<open>
  \<open>AudioThread.run\<close> for the track at \<open>audio_path\<close>, started when
  \<open>player.playback_position\<close> is \<open>playback_position\<close>. The result is the trace of the
  run and whether the thread returns; a thread blocked for ever in
  \<open>pause_event.wait()\<close> never reaches its \<open>finally\<close> block.
\<close>

definition run :: "environment \<Rightarrow> (nat \<Rightarrow> tick) \<Rightarrow> pystr \<Rightarrow> real \<Rightarrow> event list \<times> bool" where
  "run env ctl audio_path playback_position =
     (if \<not> isfile env audio_path then ([ShowError FileNotFound], True)
      else case sf_read env audio_path of
        None \<Rightarrow> ([ShowError OpenError], True)
      | Some (data, samplerate) \<Rightarrow>
          if \<not> device_open env then ([ShowError OpenError], True)
          else
            let current_frame = py_int ((playback_position / 1000) * real samplerate);
                data' = slice_from data current_frame
            in finally_block (stream_loop ctl current_frame samplerate data'
                                (py_range (length data') chunk_size)))"

text \<open>Projections of a trace.\<close>

fun writes :: "event list \<Rightarrow> chunk list" where
  "writes [] = []"
| "writes (StreamWrite c # evs) = c # writes evs"
| "writes (_ # evs) = writes evs"

fun visualizations :: "event list \<Rightarrow> (chunk \<times> nat) list" where
  "visualizations [] = []"
| "visualizations (UpdateVisualization c n # evs) = (c, n) # visualizations evs"
| "visualizations (_ # evs) = visualizations evs"

fun errors :: "event list \<Rightarrow> error_message list" where
  "errors [] = []"
| "errors (ShowError e # evs) = e # errors evs"
| "errors (_ # evs) = errors evs"

text \<open>The value of \<open>player.playback_position\<close> after the writes of a trace.\<close>

fun position_after :: "real \<Rightarrow> event list \<Rightarrow> real" where
  "position_after p [] = p"
| "position_after p (PositionUpdate q # evs) = position_after q evs"
| "position_after p (_ # evs) = position_after p evs"

section \<open>Tracks\<close>

record metadata =
  title :: pystr
  artist :: pystr
  album :: pystr

text \<open>
  An \<open>AudioTrack\<close> object. The class defines no \<open>__eq__\<close>, so \<open>in\<close> and
  \<open>list.index\<close> compare tracks by object identity; \<open>ident\<close> is that identity, which
  makes equality of the records the equality the program uses.
\<close>

record AudioTrack =
  ident :: nat
  path :: pystr
  name :: pystr
  metadata :: metadata
  duration :: real

text \<open>\<open>os.path.basename\<close> in its POSIX form: what follows the last slash.\<close>

definition basename :: "pystr \<Rightarrow> pystr" where
  "basename p = rev (takeWhile (\<lambda>c. c \<noteq> 47) (rev p))"

text \<open>
  \<open>audio.get(key, [default])[0]\<close>: the first value of the tag, the default when the
  tag is absent, and \<open>None\<close> for the \<open>IndexError\<close> of an empty list of values.
\<close>

definition first_tag :: "(pystr \<times> pystr list) list \<Rightarrow> pystr \<Rightarrow> pystr \<Rightarrow> pystr option" where
  "first_tag audio key dflt =
     (case map_of audio key of
        None \<Rightarrow> Some dflt
      | Some [] \<Rightarrow> None
      | Some (v # _) \<Rightarrow> Some v)"

definition default_metadata :: "pystr \<Rightarrow> metadata" where
  "default_metadata nm =
     \<lparr> title = nm, artist = str ''Unknown Artist'', album = str ''Unknown Album'' \<rparr>"

definition extract_metadata :: "environment \<Rightarrow> pystr \<Rightarrow> pystr \<Rightarrow> metadata" where
  "extract_metadata env pth nm =
     (case mutagen_file env pth of
        None \<Rightarrow> default_metadata nm
      | Some audio \<Rightarrow>
          if audio = [] then default_metadata nm
          else (case (first_tag audio (str ''title'') nm,
                      first_tag audio (str ''artist'') (str ''Unknown Artist''),
                      first_tag audio (str ''album'') (str ''Unknown Album'')) of
                  (Some t, Some a, Some al) \<Rightarrow> \<lparr> title = t, artist = a, album = al \<rparr>
                | _ \<Rightarrow> default_metadata nm))"

text \<open>\<open>len(f) / f.samplerate\<close>, and 0 when opening the file or the division raises.\<close>

definition get_duration :: "environment \<Rightarrow> pystr \<Rightarrow> real" where
  "get_duration env pth =
     (case sf_read env pth of
        None \<Rightarrow> 0
      | Some (data, samplerate) \<Rightarrow>
          if samplerate = 0 then 0 else real (length data) / real samplerate)"

text \<open>\<open>AudioTrack(path)\<close>, for the object created as number \<open>i\<close>.\<close>

definition AudioTrack_init :: "environment \<Rightarrow> nat \<Rightarrow> pystr \<Rightarrow> AudioTrack" where
  "AudioTrack_init env i pth =
     \<lparr> ident = i, path = pth, name = basename pth,
       metadata = extract_metadata env pth (basename pth),
       duration = get_duration env pth \<rparr>"

section \<open>The player\<close>

text \<open>
  The fields of an \<open>AudioThread\<close> that the player reads and writes. \<open>pause_event\<close>
  is true when the event is set, that is while playback is not paused.
\<close>

record AudioThread =
  stop_flag :: bool
  pause_event :: bool
  muted :: bool
  volume :: real

text \<open>
  The state of \<open>AudioPlayerWindow\<close> without its widgets. \<open>pendingFiles\<close> is
  \<open>_pendingFiles\<close> (empty while the attribute does not exist), \<open>next_ident\<close> numbers
  the track objects created so far, and \<open>random_draws\<close> with \<open>draws_taken\<close> is the
  state of the module \<open>random\<close>: the sequence of values it will deliver and how
  many of them are used up.
\<close>

record player =
  tracks :: "AudioTrack list"
  currentTrackIndex :: int
  currentTrack :: "AudioTrack option"
  playback_position :: real
  audio_thread :: "AudioThread option"
  shuffle :: bool
  repeat :: bool
  playback_history :: "AudioTrack list"
  volume_level :: int
  pendingFiles :: "pystr list"
  next_ident :: nat
  random_draws :: "nat \<Rightarrow> nat"
  draws_taken :: nat

text \<open>\<open>AudioPlayerWindow.__init__\<close>, for a given state of \<open>random\<close>.\<close>

definition player_init :: "(nat \<Rightarrow> nat) \<Rightarrow> player" where
  "player_init rnd =
     \<lparr> tracks = [], currentTrackIndex = - 1, currentTrack = None, playback_position = 0,
       audio_thread = None, shuffle = False, repeat = False, playback_history = [],
       volume_level = 80, pendingFiles = [], next_ident = 0, random_draws = rnd,
       draws_taken = 0 \<rparr>"

text \<open>\<open>AudioThread.__init__\<close>.\<close>

definition AudioThread_init :: "player \<Rightarrow> AudioThread" where
  "AudioThread_init p =
     \<lparr> stop_flag = False, pause_event = True, muted = False,
       volume = real_of_int (volume_level p) / 100 \<rparr>"

text \<open>
  A loop iteration of the thread that reads \<open>stop_flag\<close>, \<open>muted\<close> and \<open>volume\<close> from
  the session \<open>t\<close>; what else it meets is as in \<open>k\<close>.
\<close>

definition observe :: "AudioThread \<Rightarrow> tick \<Rightarrow> tick" where
  "observe t k = k\<lparr>t_stop_flag := stop_flag t, t_muted := muted t, t_volume := volume t\<rparr>"

text \<open>
  \<open>random.randint(a, b)\<close> for \<open>a \<le> b\<close>: any value from \<open>a\<close> to \<open>b\<close>, taken from
  the next draw.
\<close>

definition randint :: "player \<Rightarrow> int \<Rightarrow> int \<Rightarrow> int \<times> player" where
  "randint p a b =
     (a + int (random_draws p (draws_taken p) mod nat (b - a + 1)),
      p\<lparr>draws_taken := draws_taken p + 1\<rparr>)"

text \<open>\<open>deque(maxlen=n).appendleft(x)\<close>: a full deque drops its last element.\<close>

definition appendleft :: "nat \<Rightarrow> 'a \<Rightarrow> 'a list \<Rightarrow> 'a list" where
  "appendleft maxlen x d = take maxlen (x # d)"

definition addToHistory :: "AudioTrack \<Rightarrow> player \<Rightarrow> player" where
  "addToHistory track p =
     (if track \<notin> set (playback_history p)
      then p\<lparr>playback_history := appendleft 100 track (playback_history p)\<rparr>
      else p)"

text \<open>
  \<open>stopPlayback\<close>, \<open>playCurrentTrack\<close>, \<open>nextTrack\<close> and \<open>playback_finished\<close>
  call each other. \<open>stopPlayback\<close> sets the stop flag, releases a paused wait and joins
  the thread. A thread that is still inside its loop leaves it at the next chunk boundary
  and runs the \<open>finally\<close> block of \<open>AudioThread.run\<close>, which calls
  \<open>player.playback_finished()\<close> before the join returns; a thread that had returned
  from \<open>run\<close> before opening the stream calls nothing. The argument \<open>live\<close> says which
  of the two the thread in \<open>audio_thread\<close> is. The thread is taken to be at a chunk
  boundary: a position it writes concurrently with the caller is not modelled, and neither
  is the later run of a thread that a call starts (that is \<open>run\<close> above).
\<close>

function stopPlayback :: "bool \<Rightarrow> player \<Rightarrow> player"
  and playCurrentTrack :: "bool \<Rightarrow> player \<Rightarrow> player"
  and nextTrack :: "bool \<Rightarrow> player \<Rightarrow> player"
  and playback_finished :: "player \<Rightarrow> player"
where
  "stopPlayback live p =
     (case audio_thread p of
        None \<Rightarrow> p
      | Some t \<Rightarrow>
          (let p1 = p\<lparr>audio_thread := Some (t\<lparr>stop_flag := True, pause_event := True\<rparr>)\<rparr>;
               p2 = (if live then playback_finished p1 else p1)
           in p2\<lparr>audio_thread := None\<rparr>))"
| "playCurrentTrack live p =
     (let p1 = stopPlayback live p in
      if \<not> (0 \<le> currentTrackIndex p1 \<and> currentTrackIndex p1 < int (length (tracks p1))) then p1
      else
        (let p2 = p1\<lparr>currentTrack := Some (tracks p1 ! nat (currentTrackIndex p1))\<rparr>;
             p3 = p2\<lparr>audio_thread := Some (AudioThread_init p2)\<rparr>
         in addToHistory (tracks p1 ! nat (currentTrackIndex p1)) p3))"
| "nextTrack live p =
     (if length (tracks p) > 0 then
        (let p1 = (if shuffle p
                   then (case randint p 0 (int (length (tracks p)) - 1) of
                           (r, p') \<Rightarrow> p'\<lparr>currentTrackIndex := r\<rparr>)
                   else p\<lparr>currentTrackIndex :=
                            (currentTrackIndex p + 1) mod int (length (tracks p))\<rparr>)
         in playCurrentTrack live (p1\<lparr>playback_position := 0\<rparr>))
      else p)"
| "playback_finished p =
     (let p1 = p\<lparr>audio_thread := None\<rparr> in
      if repeat p1 then playCurrentTrack False p1 else nextTrack False p1)"
  by pat_completeness auto
termination
  by (relation "measure (\<lambda>x. case x of
        Inl (Inl (live, p)) \<Rightarrow> (if audio_thread p = None then 0 else 4)
      | Inl (Inr (live, p)) \<Rightarrow> (if audio_thread p = None then 1 else 5)
      | Inr (Inl (live, p)) \<Rightarrow> (if audio_thread p = None then 2 else 6)
      | Inr (Inr p) \<Rightarrow> 3)")
     (auto simp: randint_def split: prod.splits)

declare stopPlayback.simps [simp del] playCurrentTrack.simps [simp del]
  nextTrack.simps [simp del] playback_finished.simps [simp del]

text \<open>The other operations of the player that touch the playlist, the index or a session.\<close>

definition new_tracks :: "environment \<Rightarrow> nat \<Rightarrow> pystr list \<Rightarrow> AudioTrack list" where
  "new_tracks env n files = map (\<lambda>(k, f). AudioTrack_init env (n + k) f) (enumerate 0 files)"

definition addSelectedFiles :: "environment \<Rightarrow> player \<Rightarrow> player" where
  "addSelectedFiles env p =
     (if pendingFiles p \<noteq> []
      then p\<lparr>tracks := tracks p @ new_tracks env (next_ident p) (pendingFiles p),
             next_ident := next_ident p + length (pendingFiles p),
             pendingFiles := []\<rparr>
      else p)"

definition togglePlayPause :: "bool \<Rightarrow> player \<Rightarrow> player" where
  "togglePlayPause live p =
     (if currentTrackIndex p < 0 then
        (if length (tracks p) > 0 then playCurrentTrack live (p\<lparr>currentTrackIndex := 0\<rparr>) else p)
      else (case audio_thread p of
              None \<Rightarrow> playCurrentTrack live p
            | Some t \<Rightarrow>
                if pause_event t then p\<lparr>audio_thread := Some (t\<lparr>pause_event := False\<rparr>)\<rparr>
                else p\<lparr>audio_thread := Some (t\<lparr>pause_event := True\<rparr>)\<rparr>))"

definition prevTrack :: "bool \<Rightarrow> player \<Rightarrow> player" where
  "prevTrack live p =
     (if length (tracks p) > 0 then
        playCurrentTrack live
          (p\<lparr>currentTrackIndex := (currentTrackIndex p - 1) mod int (length (tracks p)),
             playback_position := 0\<rparr>)
      else p)"

definition rewind15 :: "bool \<Rightarrow> player \<Rightarrow> player" where
  "rewind15 live p =
     (let p1 = p\<lparr>playback_position := max 0 (playback_position p - 15000)\<rparr> in
      if audio_thread p1 \<noteq> None then playCurrentTrack live p1 else p1)"

definition forward15 :: "bool \<Rightarrow> player \<Rightarrow> player" where
  "forward15 live p =
     (case currentTrack p of
        None \<Rightarrow> p
      | Some trk \<Rightarrow>
          (let new_position = playback_position p + 15000 in
           if new_position < duration trk * 1000 then
             (let p1 = p\<lparr>playback_position := new_position\<rparr> in
              if audio_thread p1 \<noteq> None then playCurrentTrack live p1 else p1)
           else p))"

definition changeVolume :: "int \<Rightarrow> player \<Rightarrow> player" where
  "changeVolume v p =
     (let p1 = p\<lparr>volume_level := v\<rparr> in
      case audio_thread p1 of
        None \<Rightarrow> p1
      | Some t \<Rightarrow>
          if \<not> muted t then p1\<lparr>audio_thread := Some (t\<lparr>volume := real_of_int v / 100\<rparr>)\<rparr>
          else p1)"

definition toggleMute :: "player \<Rightarrow> player" where
  "toggleMute p =
     (case audio_thread p of
        None \<Rightarrow> p
      | Some t \<Rightarrow> p\<lparr>audio_thread := Some (t\<lparr>muted := \<not> muted t\<rparr>)\<rparr>)"

text \<open>\<open>onSeekEnd\<close>, for the value of the progress slider.\<close>

definition onSeekEnd :: "bool \<Rightarrow> int \<Rightarrow> player \<Rightarrow> player" where
  "onSeekEnd live slider_val p =
     (case currentTrack p of
        None \<Rightarrow> p
      | Some trk \<Rightarrow>
          (let pos_ms = py_int ((real_of_int slider_val / 1000) * duration trk * 1000);
               p1 = p\<lparr>playback_position := real_of_int pos_ms\<rparr>
           in if audio_thread p1 \<noteq> None then playCurrentTrack live p1 else p1))"

text \<open>
  \<open>playSelectedTrack\<close>, for the row of the item that was double-clicked (a row of the
  list widget, so not negative).
\<close>

definition playSelectedTrack :: "bool \<Rightarrow> nat \<Rightarrow> player \<Rightarrow> player" where
  "playSelectedTrack live index p =
     (if index < length (tracks p) then
        playCurrentTrack live (p\<lparr>currentTrackIndex := int index, playback_position := 0\<rparr>)
      else p)"



definition jumpToTrackByNumber :: "bool \<Rightarrow> int \<Rightarrow> player \<Rightarrow> player" where
  "jumpToTrackByNumber live track_number p =
     (if 1 \<le> track_number \<and> track_number \<le> int (length (tracks p)) then
        playCurrentTrack live (p\<lparr>currentTrackIndex := track_number - 1, playback_position := 0\<rparr>)
      else p)"

section \<open>Saving and loading a playlist\<close>

text \<open>
  The code points that \<open>str.strip()\<close> removes, which are those \<open>str.isspace()\<close>
  accepts.
\<close>

definition isspace :: "nat \<Rightarrow> bool" where
  "isspace c \<longleftrightarrow>
     (9 \<le> c \<and> c \<le> 13) \<or> (28 \<le> c \<and> c \<le> 32) \<or> c = 133 \<or> c = 160 \<or> c = 5760
     \<or> (8192 \<le> c \<and> c \<le> 8202) \<or> c = 8232 \<or> c = 8233 \<or> c = 8239 \<or> c = 8287 \<or> c = 12288"

definition strip :: "pystr \<Rightarrow> pystr" where
  "strip s = rev (dropWhile isspace (rev (dropWhile isspace s)))"

text \<open>
  Writing to a file opened in text mode replaces every line feed by \<open>os.linesep\<close>.
\<close>

definition write_text :: "pystr \<Rightarrow> pystr \<Rightarrow> pystr" where
  "write_text sep s = concat (map (\<lambda>c. if c = 10 then sep else [c]) s)"

text \<open>
  \<open>f.readlines()\<close> on a file opened in text mode: a line ends with a line feed, a
  carriage return or the pair of both, each read as one line feed, and keeps that
  line feed; text after the last line end is a line of its own.
\<close>

fun read_lines :: "pystr \<Rightarrow> pystr \<Rightarrow> pystr list" where
  "read_lines acc [] = (if acc = [] then [] else [acc])"
| "read_lines acc (c # cs) =
     (if c = 10 then (acc @ [10]) # read_lines [] cs
      else if c = 13 then
        (case cs of
           [] \<Rightarrow> [acc @ [10]]
         | d # ds \<Rightarrow> if d = 10 then (acc @ [10]) # read_lines [] ds
                     else (acc @ [10]) # read_lines [] cs)
      else read_lines (acc @ [c]) cs)"

definition readlines :: "pystr \<Rightarrow> pystr list" where
  "readlines s = read_lines [] s"

text \<open>
  The text files on disk, by path. \<open>savePlaylist\<close> takes the path chosen in the dialog
  (\<open>None\<close> or empty when the dialog is cancelled) and whether writing succeeds; what a
  failed write leaves on disk is not modelled.
\<close>

type_synonym files = "pystr \<Rightarrow> pystr option"

definition savePlaylist :: "environment \<Rightarrow> pystr option \<Rightarrow> bool \<Rightarrow> player \<Rightarrow> files \<Rightarrow> files" where
  "savePlaylist env file_path write_ok p fs =
     (if tracks p = [] then fs
      else (case file_path of
              None \<Rightarrow> fs
            | Some fp \<Rightarrow>
                if fp = [] \<or> \<not> write_ok then fs
                else fs(fp \<mapsto> write_text (linesep env)
                                 (concat (map (\<lambda>track. path track @ [10]) (tracks p))))))"

text \<open>
  \<open>loadPlaylist\<close>: a file that cannot be opened or decoded raises before the playlist
  is cleared.
\<close>

definition loadPlaylist :: "environment \<Rightarrow> pystr option \<Rightarrow> files \<Rightarrow> player \<Rightarrow> player" where
  "loadPlaylist env file_path fs p =
     (case file_path of
        None \<Rightarrow> p
      | Some fp \<Rightarrow>
          if fp = [] then p
          else (case fs fp of
                  None \<Rightarrow> p
                | Some content \<Rightarrow>
                    (let paths = filter (isfile env) (map strip (readlines content)) in
                     p\<lparr>tracks := new_tracks env (next_ident p) paths,
                       next_ident := next_ident p + length paths\<rparr>)))"

definition toggleShuffle :: "bool \<Rightarrow> player \<Rightarrow> player" where
  "toggleShuffle checked p = p\<lparr>shuffle := checked\<rparr>"

definition toggleRepeat :: "bool \<Rightarrow> player \<Rightarrow> player" where
  "toggleRepeat checked p = p\<lparr>repeat := checked\<rparr>"

section \<open>Properties to be stated\<close>


definition index_valid :: "player \<Rightarrow> bool" where
  "index_valid p \<longleftrightarrow> 0 \<le> currentTrackIndex p \<and> currentTrackIndex p < int (length (tracks p))"


text \<open>
  A path that a line of a text file can carry: no line feed or carriage return in it and
  nothing that \<open>strip\<close> would remove at either end.
\<close>

definition plain_path :: "pystr \<Rightarrow> bool" where
  "plain_path s \<longleftrightarrow> strip s = s \<and> 10 \<notin> set s \<and> 13 \<notin> set s"

section \<open>A small example\<close>

text \<open>
  Two files \<open>a.wav\<close> and \<open>b.wav\<close> of two mono frames at 8000 Hz, without tags, on a
  machine whose line separator is the line feed; a loop iteration that finds the session
  running at half volume, and a run that meets this in every iteration; a player that has added \<open>a.wav\<close>; the same player after
  \<open>togglePlayPause\<close> has started the track, then after the mute button was pressed, and,
  with repeat switched on, at the moment the session has played the file to its end; and a
  player that has added both files.
\<close>

definition demo_path :: pystr where
  "demo_path = str ''a.wav''"

definition demo_path_b :: pystr where
  "demo_path_b = str ''b.wav''"

definition demo_env :: environment where
  "demo_env = \<lparr> isfile = (\<lambda>p. p = demo_path \<or> p = demo_path_b),
                 sf_read = (\<lambda>p. if p = demo_path \<or> p = demo_path_b
                                then Some ([[100], [- 101]], 8000) else None),
                 device_open = True,
                 mutagen_file = (\<lambda>p. None),
                 linesep = [10] \<rparr>"

definition demo_tick :: tick where
  "demo_tick = \<lparr> t_stop_flag = False, t_wait_returns = True, t_muted = False,
                  t_volume = 1 / 2, t_write_ok = True, t_vis_ok = True \<rparr>"

definition demo_ctl :: "nat \<Rightarrow> tick" where
  "demo_ctl k = demo_tick"

definition demo_player :: player where
  "demo_player =
     addSelectedFiles demo_env ((player_init (\<lambda>_. 0))\<lparr>pendingFiles := [demo_path]\<rparr>)"

definition demo_playing :: player where
  "demo_playing = togglePlayPause False demo_player"

definition demo_muted :: player where
  "demo_muted = toggleMute demo_playing"

definition demo_finished :: player where
  "demo_finished =
     (toggleRepeat True demo_playing)
       \<lparr>playback_position :=
          position_after (playback_position demo_playing)
            (fst (run demo_env demo_ctl demo_path (playback_position demo_playing)))\<rparr>"

definition demo_two :: player where
  "demo_two =
     addSelectedFiles demo_env
       ((player_init (\<lambda>_. 0))\<lparr>pendingFiles := [demo_path, demo_path_b]\<rparr>)"


text \<open>A player in the middle of a track of one minute, at 50 seconds.\<close>

definition demo_long_track :: AudioTrack where
  "demo_long_track =
     \<lparr> ident = 0, path = demo_path, name = demo_path, metadata = default_metadata demo_path,
       duration = 60 \<rparr>"

definition demo_long :: player where
  "demo_long =
     \<lparr> tracks = [demo_long_track], currentTrackIndex = 0, currentTrack = Some demo_long_track,
       playback_position = 50000,
       audio_thread = Some \<lparr> stop_flag = False, pause_event = True, muted = False, volume = 4 / 5 \<rparr>,
       shuffle = False, repeat = False, playback_history = [demo_long_track],
       volume_level = 80, pendingFiles = [], next_ident = 1, random_draws = (\<lambda>_. 0),
       draws_taken = 0 \<rparr>"

text \<open>The same player with a second track of one minute after the first.\<close>

definition demo_long_track_b :: AudioTrack where
  "demo_long_track_b =
     \<lparr> ident = 1, path = demo_path_b, name = demo_path_b, metadata = default_metadata demo_path_b,
       duration = 60 \<rparr>"

definition demo_long_two :: player where
  "demo_long_two = demo_long\<lparr>tracks := [demo_long_track, demo_long_track_b], next_ident := 2\<rparr>"

text \<open>
  A file whose name ends with a space, the only file there is, a player that has added it,
  the path of a playlist file, and a disk without text files.
\<close>

definition demo_spaced_path :: pystr where
  "demo_spaced_path = str ''a.wav ''"

definition demo_spaced_env :: environment where
  "demo_spaced_env = demo_env\<lparr>isfile := (\<lambda>p. p = demo_spaced_path)\<rparr>"

definition demo_spaced :: player where
  "demo_spaced =
     addSelectedFiles demo_spaced_env
       ((player_init (\<lambda>_. 0))\<lparr>pendingFiles := [demo_spaced_path]\<rparr>)"

definition demo_list_path :: pystr where
  "demo_list_path = str ''list.m3u''"

definition demo_no_files :: files where
  "demo_no_files = Map.empty"


section \<open>Sample arithmetic\<close>











section \<open>Traces of the streaming loop\<close>

lemma writes_append: "writes (xs @ ys) = writes xs @ writes ys"
  by (induction xs rule: writes.induct) simp_all

lemma visualizations_append: "visualizations (xs @ ys) = visualizations xs @ visualizations ys"
  by (induction xs rule: visualizations.induct) simp_all

lemma errors_append: "errors (xs @ ys) = errors xs @ errors ys"
  by (induction xs rule: errors.induct) simp_all


lemma stream_loop_visualizes_writes:
  "0 < sr \<Longrightarrow> visualizations (fst (stream_loop ctl cf sr data idxs)) =
     map (\<lambda>c. (c, length c)) (writes (fst (stream_loop ctl cf sr data idxs)))"
  by (induction idxs) (auto simp: Let_def split: prod.splits)

lemma stream_loop_written_chunk:
  "c \<in> set (writes (fst (stream_loop ctl cf sr data idxs))) \<Longrightarrow>
   \<exists>i \<in> set idxs. c = process_chunk (t_muted (ctl (i div chunk_size))) (t_volume (ctl (i div chunk_size)))
        (slice data i (i + chunk_size))"
  by (induction idxs) (auto simp: Let_def split: prod.splits if_splits)





lemma finally_block_writes: "writes (fst (finally_block r)) = writes (fst r)"
  by (simp add: finally_block_def writes_append)

lemma finally_block_visualizations: "visualizations (fst (finally_block r)) = visualizations (fst r)"
  by (simp add: finally_block_def visualizations_append)





lemma demo_run: "run demo_env demo_ctl demo_path 0 =
   ([StreamWrite [[50], [- 50]], PositionUpdate (1/4), UpdateVisualization [[50], [- 50]] 2, StreamClosed, PlaybackFinished], True)"
  by (simp add: run_def demo_env_def demo_tick_def demo_ctl_def demo_path_def py_int_def slice_from_def py_range_def
     chunk_size_def slice_def process_chunk_def mute_step_def scale_def astype_int16_chunk_def astype_int16_def
     finally_block_def Let_def)

section \<open>Mute and gain\<close>



section \<open>The visualization callback\<close>

text \<open>
  Claim C3, amended. For a file with a positive sample rate, the visualization callback is
  called once for each chunk written, in the same order, with the chunk that was written
  and its length; that chunk is the slice of the data after the mute step and after the
  scaling by the gain.
\<close>

theorem visualization_gets_written_chunk:
  assumes "\<forall>d. sf_read env pth \<noteq> Some (d, 0)"
  shows "visualizations (fst (run env ctl pth pos))
           = map (\<lambda>c. (c, length c)) (writes (fst (run env ctl pth pos)))
       \<and> (\<forall>data sr. sf_read env pth = Some (data, sr) \<longrightarrow>
           (\<forall>w \<in> set (writes (fst (run env ctl pth pos))).
              \<exists>i. w = process_chunk (t_muted (ctl (i div chunk_size))) (t_volume (ctl (i div chunk_size)))
                     (slice (slice_from data (py_int (pos / 1000 * real sr))) i (i + chunk_size))))"
proof (intro conjI allI impI ballI)
  show "visualizations (fst (run env ctl pth pos))
           = map (\<lambda>c. (c, length c)) (writes (fst (run env ctl pth pos)))"
  proof (cases "sf_read env pth")
    case None
    then show ?thesis by (simp add: run_def)
  next
    case (Some a)
    obtain data sr where a: "a = (data, sr)" by (cases a)
    with Some assms have "0 < sr" by (cases sr) auto
    then show ?thesis
      using Some a
      by (simp add: run_def Let_def finally_block_writes finally_block_visualizations
          stream_loop_visualizes_writes)
  qed
next
  fix data sr w
  assume rd: "sf_read env pth = Some (data, sr)"
    and w: "w \<in> set (writes (fst (run env ctl pth pos)))"
  let ?cf = "py_int (pos / 1000 * real sr)"
  let ?d = "slice_from data ?cf"
  from w rd have "w \<in> set (writes (fst (stream_loop ctl ?cf sr ?d (py_range (length ?d) chunk_size))))"
    by (auto simp: run_def Let_def finally_block_writes split: if_splits)
  then show "\<exists>i. w = process_chunk (t_muted (ctl (i div chunk_size))) (t_volume (ctl (i div chunk_size)))
                   (slice ?d i (i + chunk_size))"
    using stream_loop_written_chunk by blast
qed

text \<open>The example file played at half volume: the callback receives the halved samples.\<close>

theorem visualization_gets_written_chunk_witness:
  "(\<forall>d. sf_read demo_env demo_path \<noteq> Some (d, 0))
   \<and> visualizations (fst (run demo_env demo_ctl demo_path 0)) = [([[50], [- 50]], 2)]
   \<and> writes (fst (run demo_env demo_ctl demo_path 0)) = [[[50], [- 50]]]"
proof -
  have h: "\<forall>d. sf_read demo_env demo_path \<noteq> Some (d, 0)"
    by (simp add: demo_env_def)
  have w: "writes (fst (run demo_env demo_ctl demo_path 0)) = [[[50], [- 50]]]"
    by (simp add: demo_run)
  from visualization_gets_written_chunk [OF h, of demo_ctl 0] w h
  show ?thesis by simp
qed

text \<open>
  Claim C3 as stated fails there: what the callback receives is not the chunk after the
  mute step alone.
\<close>

theorem visualization_not_pre_gain:
  "visualizations (fst (run demo_env demo_ctl demo_path 0))
     \<noteq> [(mute_step False [[100], [- 101]], 2)]"
  by (simp add: demo_run mute_step_def)

section \<open>Errors and completion of a run\<close>



section \<open>Properties of the player\<close>

lemmas player_simps =
  stopPlayback.simps playCurrentTrack.simps nextTrack.simps playback_finished.simps

lemma addToHistory_fields [simp]:
  "tracks (addToHistory t p) = tracks p"
  "volume_level (addToHistory t p) = volume_level p"
  "currentTrackIndex (addToHistory t p) = currentTrackIndex p"
  "playback_position (addToHistory t p) = playback_position p"
  "audio_thread (addToHistory t p) = audio_thread p"
  "repeat (addToHistory t p) = repeat p"
  "currentTrack (addToHistory t p) = currentTrack p"
  by (simp_all add: addToHistory_def)

lemma randint_fields [simp]:
  "tracks (snd (randint p a b)) = tracks p"
  "volume_level (snd (randint p a b)) = volume_level p"
  "audio_thread (snd (randint p a b)) = audio_thread p"
  by (simp_all add: randint_def)

lemma randint_range:
  "0 < n \<Longrightarrow> 0 \<le> fst (randint p 0 (int n - 1)) \<and> fst (randint p 0 (int n - 1)) < int n"
  by (simp add: randint_def)

lemma tracks_preserved:
  "tracks (stopPlayback live p) = tracks p"
  "tracks (playCurrentTrack live2 p2) = tracks p2"
  "tracks (nextTrack live3 p3) = tracks p3"
  "tracks (playback_finished p4) = tracks p4"
  by (induction live p and live2 p2 and live3 p3 and p4
      rule: stopPlayback_playCurrentTrack_nextTrack_playback_finished.induct)
     (auto simp: player_simps Let_def randint_def split: option.splits prod.splits)

lemma volume_level_preserved:
  "volume_level (stopPlayback live p) = volume_level p"
  "volume_level (playCurrentTrack live2 p2) = volume_level p2"
  "volume_level (nextTrack live3 p3) = volume_level p3"
  "volume_level (playback_finished p4) = volume_level p4"
  by (induction live p and live2 p2 and live3 p3 and p4
      rule: stopPlayback_playCurrentTrack_nextTrack_playback_finished.induct)
     (auto simp: player_simps Let_def randint_def split: option.splits prod.splits)

lemma index_valid_preserved:
  "index_valid p \<longrightarrow> index_valid (stopPlayback live p)"
  "index_valid p2 \<longrightarrow> index_valid (playCurrentTrack live2 p2)"
  "tracks p3 \<noteq> [] \<longrightarrow> index_valid (nextTrack live3 p3)"
  "index_valid p4 \<longrightarrow> index_valid (playback_finished p4)"
  by (induction live p and live2 p2 and live3 p3 and p4
      rule: stopPlayback_playCurrentTrack_nextTrack_playback_finished.induct)
     (auto simp: player_simps Let_def randint_def index_valid_def tracks_preserved
        split: option.splits prod.splits)


lemma stopPlayback_idle: "audio_thread p = None \<Longrightarrow> stopPlayback live p = p"
  by (simp add: stopPlayback.simps)

lemma stopPlayback_clears: "audio_thread (stopPlayback live p) = None"
  by (simp add: stopPlayback.simps Let_def split: option.splits)

lemma playCurrentTrack_session:
  "audio_thread (playCurrentTrack live p) =
     (if index_valid (stopPlayback live p) then Some (AudioThread_init p) else None)"
  using stopPlayback_clears [of live p] volume_level_preserved(1) [of live p]
  by (simp add: playCurrentTrack.simps Let_def index_valid_def AudioThread_init_def)

lemma playCurrentTrack_valid_session:
  "index_valid p \<Longrightarrow> audio_thread (playCurrentTrack live p) = Some (AudioThread_init p)"
  using index_valid_preserved(1) [of p live] by (simp add: playCurrentTrack_session)

lemma playCurrentTrack_idle_fields:
  assumes "audio_thread p = None"
  shows "playback_position (playCurrentTrack live p) = playback_position p"
    and "currentTrackIndex (playCurrentTrack live p) = currentTrackIndex p"
    and "repeat (playCurrentTrack live p) = repeat p"
  using assms by (simp_all add: player_simps Let_def)

lemma stopPlayback_keeps:
  assumes "live \<longrightarrow> repeat p"
  shows "playback_position (stopPlayback live p) = playback_position p"
    and "currentTrackIndex (stopPlayback live p) = currentTrackIndex p"
  using assms by (auto simp: player_simps Let_def split: option.splits)

lemma playCurrentTrack_keeps:
  assumes "live \<longrightarrow> repeat p"
  shows "playback_position (playCurrentTrack live p) = playback_position p"
    and "currentTrackIndex (playCurrentTrack live p) = currentTrackIndex p"
  using stopPlayback_keeps [OF assms] by (simp_all add: playCurrentTrack.simps Let_def)

lemma AudioThread_init_update:
  "AudioThread_init (q\<lparr>currentTrackIndex := k\<rparr>) = AudioThread_init q"
  "AudioThread_init (q\<lparr>playback_position := x\<rparr>) = AudioThread_init q"
  "AudioThread_init (q\<lparr>audio_thread := a\<rparr>) = AudioThread_init q"
  "AudioThread_init (q\<lparr>draws_taken := d\<rparr>) = AudioThread_init q"
  by (simp_all add: AudioThread_init_def)

lemma nextTrack_session:
  assumes "tracks p \<noteq> []"
  shows "audio_thread (nextTrack live p) = Some (AudioThread_init p)"
proof -
  let ?n = "length (tracks p)"
  let ?p1 = "(if shuffle p
                 then (case randint p 0 (int ?n - 1) of
                         (r, p') \<Rightarrow> p'\<lparr>currentTrackIndex := r\<rparr>)
                 else p\<lparr>currentTrackIndex := (currentTrackIndex p + 1) mod int ?n\<rparr>)"
  have n: "0 < ?n" using assms by simp
  have "0 \<le> (currentTrackIndex p + 1) mod int ?n" "(currentTrackIndex p + 1) mod int ?n < int ?n"
    using n by simp_all
  then have v: "index_valid (?p1\<lparr>playback_position := 0\<rparr>)"
    using n by (simp add: index_valid_def randint_def)
  have a: "AudioThread_init (?p1\<lparr>playback_position := 0\<rparr>) = AudioThread_init p"
    by (simp add: AudioThread_init_def randint_def)
  have "nextTrack live p = playCurrentTrack live (?p1\<lparr>playback_position := 0\<rparr>)"
    using n by (simp add: nextTrack.simps Let_def)
  then show ?thesis using playCurrentTrack_valid_session [OF v, of live] a by simp
qed

lemma playback_finished_session:
  assumes "index_valid p"
  shows "audio_thread (playback_finished p) = Some (AudioThread_init p)"
proof -
  let ?q = "p\<lparr>audio_thread := None\<rparr>"
  have v: "index_valid ?q" using assms by (simp add: index_valid_def)
  have ne: "tracks ?q \<noteq> []" using assms by (auto simp: index_valid_def)
  have "playback_finished p = (if repeat p then playCurrentTrack False ?q else nextTrack False ?q)"
    by (simp add: playback_finished.simps Let_def)
  then show ?thesis
    using playCurrentTrack_valid_session [OF v, of False] nextTrack_session [OF ne, of False]
    by (simp add: AudioThread_init_update)
qed


lemma stopPlayback_moves_on:
  assumes "audio_thread q \<noteq> None" "\<not> repeat q" "tracks q \<noteq> []"
  shows "index_valid (stopPlayback True q)"
proof -
  from assms(1) obtain t where t: "audio_thread q = Some t" by auto
  let ?q1 = "q\<lparr>audio_thread := Some (t\<lparr>stop_flag := True, pause_event := True\<rparr>)\<rparr>"
  let ?q2 = "?q1\<lparr>audio_thread := None\<rparr>"
  have s: "stopPlayback True q = (playback_finished ?q1)\<lparr>audio_thread := None\<rparr>"
    using t by (simp add: stopPlayback.simps Let_def)
  have f: "playback_finished ?q1 = nextTrack False ?q2"
    using assms(2) by (simp add: playback_finished.simps Let_def)
  have "tracks ?q2 \<noteq> []" using assms(3) by simp
  then have "index_valid (nextTrack False ?q2)" using index_valid_preserved(3) by blast
  then show ?thesis unfolding s f by (simp add: index_valid_def)
qed

lemma nextTrack_idle_fields:
  assumes "audio_thread q = None" "tracks q \<noteq> []"
  shows "playback_position (nextTrack False q) = 0"
    and "\<not> shuffle q \<Longrightarrow>
         currentTrackIndex (nextTrack False q) = (currentTrackIndex q + 1) mod int (length (tracks q))"
  using assms playCurrentTrack_idle_fields
  by (simp_all add: nextTrack.simps Let_def randint_def split: prod.splits)

lemma stopPlayback_live_moves_on:
  assumes "audio_thread q \<noteq> None" "\<not> repeat q" "tracks q \<noteq> []"
  shows "playback_position (stopPlayback True q) = 0"
    and "\<not> shuffle q \<Longrightarrow>
         currentTrackIndex (stopPlayback True q) = (currentTrackIndex q + 1) mod int (length (tracks q))"
proof -
  from assms(1) obtain t where t: "audio_thread q = Some t" by auto
  let ?q1 = "q\<lparr>audio_thread := Some (t\<lparr>stop_flag := True, pause_event := True\<rparr>)\<rparr>"
  let ?q2 = "?q1\<lparr>audio_thread := None\<rparr>"
  have s: "stopPlayback True q = (playback_finished ?q1)\<lparr>audio_thread := None\<rparr>"
    using t by (simp add: stopPlayback.simps Let_def)
  have f: "playback_finished ?q1 = nextTrack False ?q2"
    using assms(2) by (simp add: playback_finished.simps Let_def)
  have n: "audio_thread ?q2 = None" "tracks ?q2 \<noteq> []" using assms(3) by simp_all
  show "playback_position (stopPlayback True q) = 0"
    unfolding s f using nextTrack_idle_fields(1) [OF n] by simp
  show "currentTrackIndex (stopPlayback True q) = (currentTrackIndex q + 1) mod int (length (tracks q))"
    if "\<not> shuffle q"
    unfolding s f using nextTrack_idle_fields(2) [OF n] that by simp
qed

lemma playCurrentTrack_live_moves_on:
  assumes "audio_thread q \<noteq> None" "\<not> repeat q" "tracks q \<noteq> []"
  shows "playback_position (playCurrentTrack True q) = 0"
    and "index_valid (playCurrentTrack True q)"
    and "\<not> shuffle q \<Longrightarrow>
         currentTrackIndex (playCurrentTrack True q) = (currentTrackIndex q + 1) mod int (length (tracks q))"
    and "audio_thread (playCurrentTrack True q) = Some (AudioThread_init q)"
proof -
  have v: "index_valid (stopPlayback True q)" using assms by (rule stopPlayback_moves_on)
  have tr: "tracks (stopPlayback True q) = tracks q" by (rule tracks_preserved(1))
  show "playback_position (playCurrentTrack True q) = 0"
    using stopPlayback_live_moves_on(1) [OF assms] by (simp add: playCurrentTrack.simps Let_def)
  show "index_valid (playCurrentTrack True q)"
    using v tr by (simp add: playCurrentTrack.simps Let_def index_valid_def)
  show "currentTrackIndex (playCurrentTrack True q) = (currentTrackIndex q + 1) mod int (length (tracks q))"
    if "\<not> shuffle q"
    using stopPlayback_live_moves_on(2) [OF assms that] by (simp add: playCurrentTrack.simps Let_def)
  show "audio_thread (playCurrentTrack True q) = Some (AudioThread_init q)"
    using v by (simp add: playCurrentTrack_session)
qed

lemma demo_path_eval: "demo_path = [97, 46, 119, 97, 118]"
  by (simp add: demo_path_def str_def)

lemma demo_path_b_eval: "demo_path_b = [98, 46, 119, 97, 118]"
  by (simp add: demo_path_b_def str_def)

lemma demo_player_eval:
  "demo_player = \<lparr> tracks = [\<lparr> ident = 0, path = demo_path, name = demo_path,
         metadata = \<lparr> title = demo_path, artist = str ''Unknown Artist'', album = str ''Unknown Album'' \<rparr>,
         duration = 1 / 4000 \<rparr>],
       currentTrackIndex = - 1, currentTrack = None, playback_position = 0,
       audio_thread = None, shuffle = False, repeat = False, playback_history = [],
       volume_level = 80, pendingFiles = [], next_ident = 1, random_draws = (\<lambda>_. 0),
       draws_taken = 0 \<rparr>"
  by (simp add: demo_player_def addSelectedFiles_def player_init_def new_tracks_def enumerate_eq_zip
      AudioTrack_init_def basename_def extract_metadata_def default_metadata_def get_duration_def
      demo_env_def demo_path_eval)

lemma demo_playing_eval:
  "demo_playing = demo_player\<lparr> currentTrackIndex := 0, currentTrack := Some (hd (tracks demo_player)),
       audio_thread := Some \<lparr> stop_flag = False, pause_event = True, muted = False, volume = 4 / 5 \<rparr>,
       playback_history := [hd (tracks demo_player)] \<rparr>"
  by (simp add: demo_playing_def togglePlayPause_def demo_player_eval player_simps Let_def
      addToHistory_def appendleft_def AudioThread_init_def)

lemma demo_muted_eval:
  "demo_muted = demo_playing\<lparr>audio_thread :=
       Some \<lparr> stop_flag = False, pause_event = True, muted = True, volume = 4 / 5 \<rparr>\<rparr>"
  by (simp add: demo_muted_def toggleMute_def demo_playing_eval)

lemma demo_finished_eval:
  "demo_finished = demo_playing\<lparr>repeat := True, playback_position := 1 / 4\<rparr>"
  by (simp add: demo_finished_def toggleRepeat_def demo_run demo_playing_eval demo_player_eval)

lemma demo_two_tracks:
  "tracks demo_two = [AudioTrack_init demo_env 0 demo_path, AudioTrack_init demo_env 1 demo_path_b]"
  by (simp add: demo_two_def addSelectedFiles_def player_init_def new_tracks_def enumerate_eq_zip)




section \<open>The index invariant\<close>







section \<open>New sessions\<close>

text \<open>
  Claim C10. A session object is created unmuted and with the gain \<open>volume_level / 100\<close>
  of the player. Whatever the previous session was (muted or not), the session that
  \<open>playCurrentTrack\<close> leaves in \<open>audio_thread\<close> is such a fresh one, and so is the
  session after next, previous, a jump to a track, rewind, forward, a seek, or the
  completion of a session, whenever these start one; the volume level itself is not changed.
\<close>

theorem new_session_unmuted_at_volume_level:
  "muted (AudioThread_init p) = False
   \<and> volume (AudioThread_init p) = real_of_int (volume_level p) / 100
   \<and> (\<forall>t. audio_thread (playCurrentTrack live p) = Some t \<longrightarrow> t = AudioThread_init p)
   \<and> (index_valid p \<longrightarrow> audio_thread (playCurrentTrack live p) = Some (AudioThread_init p))
   \<and> volume_level (playCurrentTrack live p) = volume_level p
   \<and> (tracks p \<noteq> [] \<longrightarrow> audio_thread (nextTrack live p) = Some (AudioThread_init p))
   \<and> (tracks p \<noteq> [] \<longrightarrow> audio_thread (prevTrack live p) = Some (AudioThread_init p))
   \<and> (1 \<le> n \<and> n \<le> int (length (tracks p)) \<longrightarrow>
         audio_thread (jumpToTrackByNumber live n p) = Some (AudioThread_init p))
   \<and> (i < length (tracks p) \<longrightarrow>
         audio_thread (playSelectedTrack live i p) = Some (AudioThread_init p))
   \<and> (audio_thread p \<noteq> None \<and> index_valid p \<longrightarrow>
         audio_thread (rewind15 live p) = Some (AudioThread_init p))
   \<and> (audio_thread p \<noteq> None \<and> index_valid p \<and> currentTrack p = Some trk
        \<and> playback_position p + 15000 < duration trk * 1000 \<longrightarrow>
         audio_thread (forward15 live p) = Some (AudioThread_init p))
   \<and> (audio_thread p \<noteq> None \<and> index_valid p \<and> currentTrack p = Some trk \<longrightarrow>
         audio_thread (onSeekEnd live v p) = Some (AudioThread_init p))
   \<and> (index_valid p \<longrightarrow> audio_thread (playback_finished p) = Some (AudioThread_init p))"
proof (intro conjI impI allI)
  note upd = AudioThread_init_update
  show "muted (AudioThread_init p) = False"
    "volume (AudioThread_init p) = real_of_int (volume_level p) / 100"
    by (simp_all add: AudioThread_init_def)
  show "t = AudioThread_init p" if "audio_thread (playCurrentTrack live p) = Some t" for t
    using that by (simp add: playCurrentTrack_session split: if_splits)
  show "audio_thread (playCurrentTrack live p) = Some (AudioThread_init p)" if "index_valid p"
    using that by (rule playCurrentTrack_valid_session)
  show "volume_level (playCurrentTrack live p) = volume_level p"
    by (rule volume_level_preserved(2))
  show "audio_thread (nextTrack live p) = Some (AudioThread_init p)" if "tracks p \<noteq> []"
    using that by (rule nextTrack_session)
  show "audio_thread (prevTrack live p) = Some (AudioThread_init p)" if "tracks p \<noteq> []"
  proof -
    let ?q = "p\<lparr>currentTrackIndex := (currentTrackIndex p - 1) mod int (length (tracks p)),
                 playback_position := 0\<rparr>"
    have n: "0 < int (length (tracks p))" using that by simp
    have "0 \<le> (currentTrackIndex p - 1) mod int (length (tracks p))"
       "(currentTrackIndex p - 1) mod int (length (tracks p)) < int (length (tracks p))"
      using n by (rule pos_mod_sign, rule pos_mod_bound)
    then have v: "index_valid ?q" by (simp add: index_valid_def)
    show ?thesis using that playCurrentTrack_valid_session [OF v, of live]
      by (simp add: prevTrack_def upd)
  qed
  show "audio_thread (jumpToTrackByNumber live n p) = Some (AudioThread_init p)"
    if "1 \<le> n \<and> n \<le> int (length (tracks p))"
  proof -
    have v: "index_valid (p\<lparr>currentTrackIndex := n - 1, playback_position := 0\<rparr>)"
      using that by (simp add: index_valid_def)
    show ?thesis using that playCurrentTrack_valid_session [OF v, of live]
      by (simp add: jumpToTrackByNumber_def upd)
  qed
  show "audio_thread (playSelectedTrack live i p) = Some (AudioThread_init p)"
    if "i < length (tracks p)"
  proof -
    have v: "index_valid (p\<lparr>currentTrackIndex := int i, playback_position := 0\<rparr>)"
      using that by (simp add: index_valid_def)
    show ?thesis using that playCurrentTrack_valid_session [OF v, of live]
      by (simp add: playSelectedTrack_def upd)
  qed
  show "audio_thread (rewind15 live p) = Some (AudioThread_init p)"
    if "audio_thread p \<noteq> None \<and> index_valid p"
  proof -
    have v: "index_valid (p\<lparr>playback_position := max 0 (playback_position p - 15000)\<rparr>)"
      using that by (simp add: index_valid_def)
    show ?thesis using that playCurrentTrack_valid_session [OF v, of live]
      by (simp add: rewind15_def Let_def upd)
  qed
  show "audio_thread (forward15 live p) = Some (AudioThread_init p)"
    if "audio_thread p \<noteq> None \<and> index_valid p \<and> currentTrack p = Some trk
        \<and> playback_position p + 15000 < duration trk * 1000"
  proof -
    have v: "index_valid (p\<lparr>playback_position := playback_position p + 15000\<rparr>)"
      using that by (simp add: index_valid_def)
    show ?thesis using that playCurrentTrack_valid_session [OF v, of live]
      by (simp add: forward15_def Let_def upd)
  qed
  show "audio_thread (onSeekEnd live v p) = Some (AudioThread_init p)"
    if "audio_thread p \<noteq> None \<and> index_valid p \<and> currentTrack p = Some trk"
  proof -
    let ?x = "real_of_int (py_int (real_of_int v / 1000 * duration trk * 1000))"
    have v: "index_valid (p\<lparr>playback_position := ?x\<rparr>)"
      using that by (simp add: index_valid_def)
    show ?thesis using that playCurrentTrack_valid_session [OF v, of live]
      by (simp add: onSeekEnd_def Let_def upd)
  qed
  show "audio_thread (playback_finished p) = Some (AudioThread_init p)" if "index_valid p"
    using that by (rule playback_finished_session)
qed

text \<open>
  Claim C10 on the example: the session is muted and the volume level is changed to 50;
  the sessions that next and rewind start are unmuted, with gain 0.5.
\<close>

theorem new_session_unmuted_at_volume_level_witness:
  "index_valid (changeVolume 50 demo_muted) \<and> tracks (changeVolume 50 demo_muted) \<noteq> []
   \<and> map_option muted (audio_thread (changeVolume 50 demo_muted)) = Some True
   \<and> volume_level (changeVolume 50 demo_muted) = 50
   \<and> audio_thread (nextTrack True (changeVolume 50 demo_muted))
       = Some \<lparr> stop_flag = False, pause_event = True, muted = False, volume = 1 / 2 \<rparr>
   \<and> audio_thread (rewind15 False (changeVolume 50 demo_muted))
       = Some \<lparr> stop_flag = False, pause_event = True, muted = False, volume = 1 / 2 \<rparr>"
proof -
  let ?p = "changeVolume 50 demo_muted"
  have e: "?p = demo_muted\<lparr>volume_level := 50\<rparr>"
    by (simp add: changeVolume_def demo_muted_eval Let_def)
  have a: "index_valid ?p" "tracks ?p \<noteq> []" "audio_thread ?p \<noteq> None"
    "map_option muted (audio_thread ?p) = Some True" "volume_level ?p = 50"
    unfolding e by (simp_all add: demo_muted_eval demo_playing_eval demo_player_eval index_valid_def)
  have b: "AudioThread_init ?p = \<lparr> stop_flag = False, pause_event = True, muted = False, volume = 1 / 2 \<rparr>"
    using a(5) by (simp add: AudioThread_init_def)
  have n: "audio_thread (nextTrack True ?p) = Some (AudioThread_init ?p)"
    using new_session_unmuted_at_volume_level [of ?p True] a(2) by blast
  have r: "audio_thread (rewind15 False ?p) = Some (AudioThread_init ?p)"
    using new_session_unmuted_at_volume_level [of ?p False] a(1,3) by blast
  show ?thesis using a(1,2,4,5) n [unfolded b] r [unfolded b] by blast
qed

section \<open>Rewind and forward\<close>

text \<open>
  Claim C8 fails on the code. When rewind or forward restarts a session whose thread is
  still in its loop while repeat is off, the thread answers the stop with its completion
  call, and the completion handler moves on with \<open>nextTrack\<close>: the player ends with a new
  session on the next track (a random one under shuffle) at position 0, not at the
  position that rewind or forward has just set on the current track.
\<close>

theorem rewind15_forward15_live_session_moves_on:
  "audio_thread p \<noteq> None \<and> \<not> repeat p \<and> tracks p \<noteq> [] \<longrightarrow>
     (playback_position (rewind15 True p) = 0
      \<and> index_valid (rewind15 True p)
      \<and> (\<not> shuffle p \<longrightarrow>
           currentTrackIndex (rewind15 True p)
             = (currentTrackIndex p + 1) mod int (length (tracks p)))
      \<and> audio_thread (rewind15 True p) = Some (AudioThread_init p))
     \<and> (currentTrack p = Some trk \<and> playback_position p + 15000 < duration trk * 1000 \<longrightarrow>
          playback_position (forward15 True p) = 0
          \<and> index_valid (forward15 True p)
          \<and> (\<not> shuffle p \<longrightarrow>
               currentTrackIndex (forward15 True p)
                 = (currentTrackIndex p + 1) mod int (length (tracks p)))
          \<and> audio_thread (forward15 True p) = Some (AudioThread_init p))"
proof (intro impI)
  assume a: "audio_thread p \<noteq> None \<and> \<not> repeat p \<and> tracks p \<noteq> []"
  let ?r = "p\<lparr>playback_position := max 0 (playback_position p - 15000)\<rparr>"
  let ?f = "p\<lparr>playback_position := playback_position p + 15000\<rparr>"
  have r: "rewind15 True p = playCurrentTrack True ?r"
    using a by (simp add: rewind15_def Let_def)
  have ar: "audio_thread ?r \<noteq> None" "\<not> repeat ?r" "tracks ?r \<noteq> []" using a by simp_all
  have af: "audio_thread ?f \<noteq> None" "\<not> repeat ?f" "tracks ?f \<noteq> []" using a by simp_all
  note R = playCurrentTrack_live_moves_on [OF ar]
  note F = playCurrentTrack_live_moves_on [OF af]
  have 1: "playback_position (rewind15 True p) = 0
      \<and> index_valid (rewind15 True p)
      \<and> (\<not> shuffle p \<longrightarrow>
           currentTrackIndex (rewind15 True p)
             = (currentTrackIndex p + 1) mod int (length (tracks p)))
      \<and> audio_thread (rewind15 True p) = Some (AudioThread_init p)"
    unfolding r using R by (simp add: AudioThread_init_update)
  have 2: "playback_position (forward15 True p) = 0
          \<and> index_valid (forward15 True p)
          \<and> (\<not> shuffle p \<longrightarrow>
               currentTrackIndex (forward15 True p)
                 = (currentTrackIndex p + 1) mod int (length (tracks p)))
          \<and> audio_thread (forward15 True p) = Some (AudioThread_init p)"
    if c: "currentTrack p = Some trk \<and> playback_position p + 15000 < duration trk * 1000"
  proof -
    have f: "forward15 True p = playCurrentTrack True ?f"
      using a c by (simp add: forward15_def Let_def)
    show ?thesis unfolding f using F by (simp add: AudioThread_init_update)
  qed
  from 1 2 show "(playback_position (rewind15 True p) = 0
      \<and> index_valid (rewind15 True p)
      \<and> (\<not> shuffle p \<longrightarrow>
           currentTrackIndex (rewind15 True p)
             = (currentTrackIndex p + 1) mod int (length (tracks p)))
      \<and> audio_thread (rewind15 True p) = Some (AudioThread_init p))
     \<and> (currentTrack p = Some trk \<and> playback_position p + 15000 < duration trk * 1000 \<longrightarrow>
          playback_position (forward15 True p) = 0
          \<and> index_valid (forward15 True p)
          \<and> (\<not> shuffle p \<longrightarrow>
               currentTrackIndex (forward15 True p)
                 = (currentTrackIndex p + 1) mod int (length (tracks p)))
          \<and> audio_thread (forward15 True p) = Some (AudioThread_init p))"
    by blast
qed

text \<open>
  The example with two tracks, the first playing at 50 seconds: after rewind the player is
  on the second track at position 0, not on the first at 35 seconds; and likewise after
  forward from 10 seconds.
\<close>

theorem rewind15_forward15_live_session_moves_on_witness:
  "audio_thread demo_long_two \<noteq> None \<and> \<not> repeat demo_long_two \<and> tracks demo_long_two \<noteq> []
   \<and> \<not> shuffle demo_long_two
   \<and> currentTrackIndex demo_long_two = 0 \<and> playback_position demo_long_two = 50000
   \<and> max 0 (playback_position demo_long_two - 15000) = 35000
   \<and> playback_position (rewind15 True demo_long_two) = 0
   \<and> currentTrackIndex (rewind15 True demo_long_two) = 1
   \<and> currentTrack (demo_long_two\<lparr>playback_position := 10000\<rparr>) = Some demo_long_track
   \<and> playback_position (demo_long_two\<lparr>playback_position := 10000\<rparr>) + 15000
       < duration demo_long_track * 1000
   \<and> playback_position (forward15 True (demo_long_two\<lparr>playback_position := 10000\<rparr>)) = 0
   \<and> currentTrackIndex (forward15 True (demo_long_two\<lparr>playback_position := 10000\<rparr>)) = 1"
proof -
  let ?q = "demo_long_two\<lparr>playback_position := 10000\<rparr>"
  have a: "audio_thread demo_long_two \<noteq> None" "\<not> repeat demo_long_two" "tracks demo_long_two \<noteq> []"
    "\<not> shuffle demo_long_two" "currentTrackIndex demo_long_two = 0"
    "playback_position demo_long_two = 50000"
    "max 0 (playback_position demo_long_two - 15000) = 35000"
    "(currentTrackIndex demo_long_two + 1) mod int (length (tracks demo_long_two)) = 1"
    by (simp_all add: demo_long_two_def demo_long_def)
  have b: "audio_thread ?q \<noteq> None" "\<not> repeat ?q" "tracks ?q \<noteq> []" "\<not> shuffle ?q"
    "currentTrack ?q = Some demo_long_track"
    "playback_position ?q + 15000 < duration demo_long_track * 1000"
    "(currentTrackIndex ?q + 1) mod int (length (tracks ?q)) = 1"
    by (simp_all add: demo_long_two_def demo_long_def demo_long_track_def)
  note T1 = rewind15_forward15_live_session_moves_on [of demo_long_two demo_long_track]
  note T2 = rewind15_forward15_live_session_moves_on [of ?q demo_long_track]
  have 1: "playback_position (rewind15 True demo_long_two) = 0" using T1 a(1,2,3) by blast
  have "currentTrackIndex (rewind15 True demo_long_two)
      = (currentTrackIndex demo_long_two + 1) mod int (length (tracks demo_long_two))"
    using T1 a(1,2,3,4) by blast
  then have 2: "currentTrackIndex (rewind15 True demo_long_two) = 1" using a(8) by simp
  have 3: "playback_position (forward15 True ?q) = 0" using T2 b(1,2,3,5,6) by blast
  have "currentTrackIndex (forward15 True ?q) = (currentTrackIndex ?q + 1) mod int (length (tracks ?q))"
    using T2 b(1,2,3,4,5,6) by blast
  then have 4: "currentTrackIndex (forward15 True ?q) = 1" using b(7) by simp
  show ?thesis using a(1-7) b(5,6) 1 2 3 4 by blast
qed

text \<open>
  Apart from that, \<open>rewind15\<close> sets the position to \<open>max(0, p - 15000)\<close> and \<open>forward15\<close>
  sets it to \<open>p + 15000\<close> only when there is a current track and \<open>p + 15000\<close> is below
  its duration in milliseconds; otherwise \<open>forward15\<close> changes nothing. When no session is
  active nothing else changes; when the thread of the active session makes no completion
  call, or repeat is on, the position and the index stay as set and, for a valid index,
  the player holds a new session.
\<close>

lemma rewind15_forward15_position:
  "(audio_thread p = None \<longrightarrow>
      rewind15 live p = p\<lparr>playback_position := max 0 (playback_position p - 15000)\<rparr>)
   \<and> (audio_thread p \<noteq> None \<and> (live \<longrightarrow> repeat p) \<longrightarrow>
        playback_position (rewind15 live p) = max 0 (playback_position p - 15000)
        \<and> currentTrackIndex (rewind15 live p) = currentTrackIndex p
        \<and> (index_valid p \<longrightarrow> audio_thread (rewind15 live p) = Some (AudioThread_init p)))
   \<and> (currentTrack p = None \<longrightarrow> forward15 live p = p)
   \<and> (currentTrack p = Some trk \<and> duration trk * 1000 \<le> playback_position p + 15000 \<longrightarrow>
        forward15 live p = p)
   \<and> (currentTrack p = Some trk \<and> playback_position p + 15000 < duration trk * 1000 \<longrightarrow>
        (audio_thread p = None \<longrightarrow>
           forward15 live p = p\<lparr>playback_position := playback_position p + 15000\<rparr>)
        \<and> (audio_thread p \<noteq> None \<and> (live \<longrightarrow> repeat p) \<longrightarrow>
             playback_position (forward15 live p) = playback_position p + 15000
             \<and> currentTrackIndex (forward15 live p) = currentTrackIndex p
             \<and> (index_valid p \<longrightarrow> audio_thread (forward15 live p) = Some (AudioThread_init p))))"
proof (intro conjI impI)
  show "rewind15 live p = p\<lparr>playback_position := max 0 (playback_position p - 15000)\<rparr>"
    if "audio_thread p = None"
    using that by (simp add: rewind15_def Let_def)
  show "forward15 live p = p" if "currentTrack p = None"
    using that by (simp add: forward15_def)
  show "forward15 live p = p"
    if "currentTrack p = Some trk \<and> duration trk * 1000 \<le> playback_position p + 15000"
    using that by (simp add: forward15_def Let_def)
  show "forward15 live p = p\<lparr>playback_position := playback_position p + 15000\<rparr>"
    if "currentTrack p = Some trk \<and> playback_position p + 15000 < duration trk * 1000"
      "audio_thread p = None"
    using that by (simp add: forward15_def Let_def)
next
  assume a: "audio_thread p \<noteq> None \<and> (live \<longrightarrow> repeat p)"
  let ?q = "p\<lparr>playback_position := max 0 (playback_position p - 15000)\<rparr>"
  have r: "rewind15 live p = playCurrentTrack live ?q"
    using a by (simp add: rewind15_def Let_def)
  have k: "live \<longrightarrow> repeat ?q" using a by simp
  show "playback_position (rewind15 live p) = max 0 (playback_position p - 15000)"
    using r playCurrentTrack_keeps(1) [OF k] by simp
  show "currentTrackIndex (rewind15 live p) = currentTrackIndex p"
    using r playCurrentTrack_keeps(2) [OF k] by simp
  show "audio_thread (rewind15 live p) = Some (AudioThread_init p)" if "index_valid p"
  proof -
    have "index_valid ?q" using that by (simp add: index_valid_def)
    then show ?thesis using r playCurrentTrack_valid_session [of ?q live]
      by (simp add: AudioThread_init_def)
  qed
next
  assume c: "currentTrack p = Some trk \<and> playback_position p + 15000 < duration trk * 1000"
    and a: "audio_thread p \<noteq> None \<and> (live \<longrightarrow> repeat p)"
  let ?q = "p\<lparr>playback_position := playback_position p + 15000\<rparr>"
  have r: "forward15 live p = playCurrentTrack live ?q"
    using a c by (simp add: forward15_def Let_def)
  have k: "live \<longrightarrow> repeat ?q" using a by simp
  show "playback_position (forward15 live p) = playback_position p + 15000"
    using r playCurrentTrack_keeps(1) [OF k] by simp
  show "currentTrackIndex (forward15 live p) = currentTrackIndex p"
    using r playCurrentTrack_keeps(2) [OF k] by simp
  show "audio_thread (forward15 live p) = Some (AudioThread_init p)" if "index_valid p"
  proof -
    have "index_valid ?q" using that by (simp add: index_valid_def)
    then show ?thesis using r playCurrentTrack_valid_session [of ?q live]
      by (simp add: AudioThread_init_def)
  qed
qed

text \<open>
  At 50 seconds of a track of one minute \<open>forward15\<close> leaves the position at 50000: it
  does not clamp it to 60000, and changes nothing else.
\<close>

lemma forward15_does_not_clamp:
  "playback_position demo_long = 50000
   \<and> currentTrack demo_long = Some demo_long_track
   \<and> duration demo_long_track * 1000 = 60000
   \<and> min (playback_position demo_long + 15000) (duration demo_long_track * 1000) = 60000
   \<and> playback_position (forward15 True demo_long) = 50000
   \<and> forward15 True demo_long = demo_long"
  by (simp add: demo_long_def demo_long_track_def forward15_def Let_def)

section \<open>Completion under repeat\<close>

text \<open>
  Claim C1 fails on the code. When a session completes while repeat is on, the completion
  handler keeps the index and, for a valid index, starts a new session; but it leaves
  \<open>playback_position\<close> where the finished session has put it. Nothing sets it to 0, as
  \<open>nextTrack\<close>, \<open>prevTrack\<close> and the jumps do before they call \<open>playCurrentTrack\<close>.
\<close>

theorem repeat_completion_keeps_position:
  "repeat p \<longrightarrow>
     currentTrackIndex (playback_finished p) = currentTrackIndex p
     \<and> playback_position (playback_finished p) = playback_position p
     \<and> (index_valid p \<longrightarrow> audio_thread (playback_finished p) = Some (AudioThread_init p))"
proof (intro impI conjI)
  assume r: "repeat p"
  let ?q = "p\<lparr>audio_thread := None\<rparr>"
  have f: "playback_finished p = playCurrentTrack False ?q"
    using r by (simp add: playback_finished.simps Let_def)
  show "currentTrackIndex (playback_finished p) = currentTrackIndex p"
    using f playCurrentTrack_keeps(2) [of False ?q] by simp
  show "playback_position (playback_finished p) = playback_position p"
    using f playCurrentTrack_keeps(1) [of False ?q] by simp
  show "audio_thread (playback_finished p) = Some (AudioThread_init p)" if "index_valid p"
    using that by (rule playback_finished_session)
qed

text \<open>
  The example with repeat on: the session has played the two frames, the position is a
  quarter of a millisecond, the end of the file; the handler restarts the track there, and
  the restarted session completes without writing a chunk.
\<close>

theorem repeat_completion_keeps_position_witness:
  "repeat demo_finished \<and> index_valid demo_finished
   \<and> playback_position demo_finished = 1 / 4
   \<and> currentTrackIndex (playback_finished demo_finished) = 0
   \<and> playback_position (playback_finished demo_finished) = 1 / 4
   \<and> audio_thread (playback_finished demo_finished) = Some (AudioThread_init demo_finished)
   \<and> run demo_env demo_ctl demo_path (playback_position (playback_finished demo_finished))
       = ([StreamClosed, PlaybackFinished], True)"
proof -
  have r: "repeat demo_finished" and v: "index_valid demo_finished"
    and q: "playback_position demo_finished = 1 / 4" and i: "currentTrackIndex demo_finished = 0"
    by (simp_all add: demo_finished_eval demo_playing_eval demo_player_eval index_valid_def)
  have e: "run demo_env demo_ctl demo_path (1 / 4) = ([StreamClosed, PlaybackFinished], True)"
    by (simp add: run_def demo_env_def py_int_def slice_from_def py_range_def chunk_size_def
        finally_block_def Let_def)
  note t = repeat_completion_keeps_position [of demo_finished, rule_format, OF r]
  have p: "playback_position (playback_finished demo_finished) = 1 / 4"
    using t q by (simp only:)
  have c: "currentTrackIndex (playback_finished demo_finished) = 0"
    using t i by (simp only:)
  have a: "audio_thread (playback_finished demo_finished) = Some (AudioThread_init demo_finished)"
    using t v by blast
  have e': "run demo_env demo_ctl demo_path (playback_position (playback_finished demo_finished))
       = ([StreamClosed, PlaybackFinished], True)"
    unfolding p by (rule e)
  show ?thesis using r v q c p a e' by blast
qed

section \<open>Volume changes\<close>

text \<open>
  Claim C4, amended. A volume change always sets \<open>volume_level\<close>. When the running session
  is not muted, it sets the gain of that session to the new value, and every chunk written
  by iterations that read the session from then on is scaled by the new gain. When the
  session is muted, its gain is left as it is, and the chunks written after unmuting are
  scaled by the old gain.
\<close>

theorem changeVolume_session_gain:
  "volume_level (changeVolume v p) = v
   \<and> (audio_thread p = None \<longrightarrow> audio_thread (changeVolume v p) = None)
   \<and> (audio_thread p = Some t \<and> \<not> muted t \<longrightarrow>
        audio_thread (changeVolume v p) = Some (t\<lparr>volume := real_of_int v / 100\<rparr>)
        \<and> (\<forall>w \<in> set (writes (fst (stream_loop
                  (\<lambda>n. observe (t\<lparr>volume := real_of_int v / 100\<rparr>) (dev n)) cf sr data idxs))).
              \<exists>i \<in> set idxs. w = process_chunk False (real_of_int v / 100)
                                     (slice data i (i + chunk_size))))
   \<and> (audio_thread p = Some t \<and> muted t \<longrightarrow>
        audio_thread (changeVolume v p) = Some t
        \<and> audio_thread (toggleMute (changeVolume v p)) = Some (t\<lparr>muted := False\<rparr>)
        \<and> (\<forall>w \<in> set (writes (fst (stream_loop
                  (\<lambda>n. observe (t\<lparr>muted := False\<rparr>) (dev n)) cf sr data idxs))).
              \<exists>i \<in> set idxs. w = process_chunk False (volume t)
                                     (slice data i (i + chunk_size))))"
proof (intro conjI impI ballI)
  show "volume_level (changeVolume v p) = v"
    by (simp add: changeVolume_def Let_def split: option.splits)
  show "audio_thread (changeVolume v p) = None" if "audio_thread p = None"
    using that by (simp add: changeVolume_def Let_def)
  show "audio_thread (changeVolume v p) = Some (t\<lparr>volume := real_of_int v / 100\<rparr>)"
    if "audio_thread p = Some t \<and> \<not> muted t"
    using that by (simp add: changeVolume_def Let_def)
  show "audio_thread (changeVolume v p) = Some t" if "audio_thread p = Some t \<and> muted t"
    using that by (simp add: changeVolume_def Let_def)
  show "audio_thread (toggleMute (changeVolume v p)) = Some (t\<lparr>muted := False\<rparr>)"
    if "audio_thread p = Some t \<and> muted t"
    using that by (simp add: changeVolume_def toggleMute_def Let_def)
next
  fix w
  assume "audio_thread p = Some t \<and> \<not> muted t"
    and "w \<in> set (writes (fst (stream_loop
            (\<lambda>n. observe (t\<lparr>volume := real_of_int v / 100\<rparr>) (dev n)) cf sr data idxs)))"
  then show "\<exists>i \<in> set idxs. w = process_chunk False (real_of_int v / 100)
                                     (slice data i (i + chunk_size))"
    using stream_loop_written_chunk
      [of w "\<lambda>n. observe (t\<lparr>volume := real_of_int v / 100\<rparr>) (dev n)" cf sr data idxs]
    by (simp add: observe_def)
next
  fix w
  assume "audio_thread p = Some t \<and> muted t"
    and "w \<in> set (writes (fst (stream_loop
            (\<lambda>n. observe (t\<lparr>muted := False\<rparr>) (dev n)) cf sr data idxs)))"
  then show "\<exists>i \<in> set idxs. w = process_chunk False (volume t) (slice data i (i + chunk_size))"
    using stream_loop_written_chunk
      [of w "\<lambda>n. observe (t\<lparr>muted := False\<rparr>) (dev n)" cf sr data idxs]
    by (simp add: observe_def)
qed

text \<open>
  The example session at volume 80, changed to 50 while playing and while muted, and a
  chunk of the example file written under the new gain.
\<close>

theorem changeVolume_session_gain_witness:
  "audio_thread demo_playing = Some \<lparr> stop_flag = False, pause_event = True, muted = False, volume = 4 / 5 \<rparr>
   \<and> \<not> muted \<lparr> stop_flag = False, pause_event = True, muted = False, volume = 4 / 5 \<rparr>
   \<and> audio_thread (changeVolume 50 demo_playing)
       = Some \<lparr> stop_flag = False, pause_event = True, muted = False, volume = 1 / 2 \<rparr>
   \<and> writes (fst (stream_loop
         (\<lambda>n. observe \<lparr> stop_flag = False, pause_event = True, muted = False, volume = 1 / 2 \<rparr>
                 demo_tick) 0 8000 [[100], [- 101]] [0])) = [[[50], [- 50]]]
   \<and> audio_thread demo_muted = Some \<lparr> stop_flag = False, pause_event = True, muted = True, volume = 4 / 5 \<rparr>
   \<and> muted \<lparr> stop_flag = False, pause_event = True, muted = True, volume = 4 / 5 \<rparr>
   \<and> audio_thread (changeVolume 50 demo_muted)
       = Some \<lparr> stop_flag = False, pause_event = True, muted = True, volume = 4 / 5 \<rparr>
   \<and> volume_level (changeVolume 50 demo_muted) = 50"
proof -
  let ?t = "\<lparr> stop_flag = False, pause_event = True, muted = False, volume = 4 / 5 \<rparr>"
  let ?m = "\<lparr> stop_flag = False, pause_event = True, muted = True, volume = 4 / 5 \<rparr>"
  have a: "audio_thread demo_playing = Some ?t" "\<not> muted ?t"
    "audio_thread demo_muted = Some ?m" "muted ?m"
    by (simp_all add: demo_muted_eval demo_playing_eval)
  have l: "writes (fst (stream_loop
         (\<lambda>n. observe \<lparr> stop_flag = False, pause_event = True, muted = False, volume = 1 / 2 \<rparr>
                 demo_tick) 0 8000 [[100], [- 101]] [0])) = [[[50], [- 50]]]"
    by (simp add: observe_def demo_tick_def chunk_size_def slice_def Let_def
      process_chunk_def mute_step_def scale_def astype_int16_chunk_def astype_int16_def py_int_def)
  have 1: "audio_thread (changeVolume 50 demo_playing) = Some (?t\<lparr>volume := real_of_int 50 / 100\<rparr>)"
    using changeVolume_session_gain [of 50 demo_playing ?t] a(1,2) by blast
  have 2: "audio_thread (changeVolume 50 demo_muted) = Some ?m"
    "volume_level (changeVolume 50 demo_muted) = 50"
    using changeVolume_session_gain [of 50 demo_muted ?m] a(3,4) by blast+
  have 3: "?t\<lparr>volume := real_of_int 50 / 100\<rparr>
      = \<lparr> stop_flag = False, pause_event = True, muted = False, volume = 1 / 2 \<rparr>" by simp
  show ?thesis using a l 1 [unfolded 3] 2 by blast
qed

text \<open>
  Claim C4 as stated fails for a muted session: after the change to 50 its gain is still
  0.8, and a sample of 100 processed after unmuting is written as 80, not as 50.
\<close>

theorem changeVolume_while_muted_keeps_gain:
  "map_option volume (audio_thread (changeVolume 50 demo_muted)) = Some (4 / 5)
   \<and> map_option volume (audio_thread (changeVolume 50 demo_muted)) \<noteq> Some (50 / 100)
   \<and> audio_thread (toggleMute (changeVolume 50 demo_muted))
       = Some \<lparr> stop_flag = False, pause_event = True, muted = False, volume = 4 / 5 \<rparr>
   \<and> sint (process_chunk False (4 / 5) [[100]] ! 0 ! 0) = 80
   \<and> sint (process_chunk False (50 / 100) [[100]] ! 0 ! 0) = 50"
  by (simp add: demo_muted_eval changeVolume_def toggleMute_def Let_def
      process_chunk_def mute_step_def scale_def astype_int16_chunk_def astype_int16_def py_int_def)

section \<open>The playback history\<close>







section \<open>Saving and loading\<close>

lemma write_text_plain: "10 \<notin> set s \<Longrightarrow> write_text sep s = s"
  by (induction s) (simp_all add: write_text_def)

lemma write_text_append: "write_text sep (xs @ ys) = write_text sep xs @ write_text sep ys"
  by (simp add: write_text_def)

lemma write_text_line:
  "10 \<notin> set s \<Longrightarrow> write_text sep (s @ [10] @ r) = s @ sep @ write_text sep r"
  by (simp add: write_text_append write_text_plain) (simp add: write_text_def)

lemma write_text_lines:
  "\<forall>s \<in> set ps. 10 \<notin> set s \<Longrightarrow>
   write_text sep (concat (map (\<lambda>s. s @ [10]) ps)) = concat (map (\<lambda>s. s @ sep) ps)"
proof (induction ps)
  case Nil
  then show ?case by (simp add: write_text_def)
next
  case (Cons a ps)
  then have "write_text sep (a @ [10] @ concat (map (\<lambda>s. s @ [10]) ps))
      = a @ sep @ concat (map (\<lambda>s. s @ sep) ps)"
    by (simp add: write_text_line del: append_Cons append_Nil)
  then show ?case by simp
qed

lemma read_lines_line:
  assumes "10 \<notin> set s" "13 \<notin> set s" "sep = [10] \<or> sep = [13, 10]"
  shows "read_lines acc (s @ sep @ rest) = (acc @ s @ [10]) # read_lines [] rest"
  using assms
proof (induction s arbitrary: acc)
  case Nil
  then show ?case by auto
next
  case (Cons c s)
  then have "read_lines (acc @ [c]) (s @ sep @ rest) = ((acc @ [c]) @ s @ [10]) # read_lines [] rest"
    by simp
  with Cons.prems show ?case by simp
qed

lemma read_lines_all:
  assumes "\<forall>s \<in> set ps. 10 \<notin> set s \<and> 13 \<notin> set s" "sep = [10] \<or> sep = [13, 10]"
  shows "read_lines [] (concat (map (\<lambda>s. s @ sep) ps)) = map (\<lambda>s. s @ [10]) ps"
  using assms
proof (induction ps)
  case Nil
  then show ?case by simp
next
  case (Cons a ps)
  then have "read_lines [] (a @ sep @ concat (map (\<lambda>s. s @ sep) ps))
      = ([] @ a @ [10]) # read_lines [] (concat (map (\<lambda>s. s @ sep) ps))"
    by (intro read_lines_line) simp_all
  with Cons show ?case by simp
qed

lemma isspace_line_feed: "isspace 10"
  by (simp add: isspace_def)

lemma strip_fixed_ends:
  assumes "strip s = s" "s \<noteq> []"
  shows "\<not> isspace (hd s)" "\<not> isspace (last s)"
proof -
  let ?d = "dropWhile isspace s"
  have l1: "length (dropWhile isspace (rev ?d)) \<le> length ?d"
    using length_dropWhile_le [of isspace "rev ?d"] by simp
  have l2: "length ?d \<le> length s" by (rule length_dropWhile_le)
  have "length (strip s) = length (dropWhile isspace (rev ?d))" by (simp add: strip_def)
  with assms(1) l1 l2 have e: "length ?d = length s" by simp
  have d: "?d = s"
  proof (rule ccontr)
    assume "?d \<noteq> s"
    then have "isspace (hd s)" using assms(2) by (cases s) (auto split: if_splits)
    then have "length ?d < length s" using assms(2) by (cases s) (auto simp: less_Suc_eq_le length_dropWhile_le)
    with e show False by simp
  qed
  then show "\<not> isspace (hd s)" using assms(2) by (metis hd_dropWhile)
  from assms(1) d have "rev (dropWhile isspace (rev s)) = s" by (simp add: strip_def)
  then have "dropWhile isspace (rev s) = rev s" by (metis rev_rev_ident)
  then have "\<not> isspace (hd (rev s))" using assms(2) by (metis hd_dropWhile rev_is_Nil_conv)
  then show "\<not> isspace (last s)" using assms(2) by (simp add: hd_rev)
qed

lemma strip_line:
  assumes "strip s = s"
  shows "strip (s @ [10]) = s"
proof (cases "s = []")
  case True
  then show ?thesis by (simp add: strip_def isspace_line_feed)
next
  case False
  from strip_fixed_ends [OF assms False]
  have h: "\<not> isspace (hd s)" and l: "\<not> isspace (last s)" by simp_all
  have 1: "dropWhile isspace (s @ [10]) = s @ [10]"
    using h False by (cases s) simp_all
  have "hd (rev s) = last s" using False by (simp add: hd_rev)
  with l have "\<not> isspace (hd (rev s))" by simp
  moreover have "rev s \<noteq> []" using False by simp
  ultimately have 2: "dropWhile isspace (rev s) = rev s"
    by (cases "rev s") simp_all
  show ?thesis by (simp add: strip_def 1 isspace_line_feed 2)
qed

lemma path_new_tracks: "map path (new_tracks env n fs) = fs"
proof -
  have h: "map path (map (\<lambda>(k, f). AudioTrack_init env (n + k) f) xs) = map snd xs" for xs
    by (induction xs) (auto simp: AudioTrack_init_def)
  have "map path (new_tracks env n fs) = map snd (zip [0..<0 + length fs] fs)"
    unfolding new_tracks_def enumerate_eq_zip by (rule h)
  then show ?thesis by simp
qed

lemma demo_spaced_path_eval: "demo_spaced_path = [97, 46, 119, 97, 118, 32]"
  by (simp add: demo_spaced_path_def str_def)

lemma demo_spaced_tracks: "map path (tracks demo_spaced) = [demo_spaced_path]"
  by (simp add: demo_spaced_def addSelectedFiles_def player_init_def path_new_tracks)

text \<open>
  Claim C9, amended. For a playlist that is not empty, whose paths hold no line feed or
  carriage return and nothing that \<open>strip\<close> removes at either end, saved under a line
  separator of line feed or carriage return and line feed: loading the saved file gives
  tracks whose paths are, in order, the saved paths that are files at load time.
\<close>

theorem save_load_roundtrip:
  assumes "tracks p \<noteq> []" and "fp \<noteq> []"
    and "linesep env = [10] \<or> linesep env = [13, 10]"
    and "\<forall>t \<in> set (tracks p). plain_path (path t)"
  shows "map path (tracks (loadPlaylist env' (Some fp) (savePlaylist env (Some fp) True p fs) q))
           = filter (isfile env') (map path (tracks p))"
proof -
  let ?ps = "map path (tracks p)"
  let ?content = "write_text (linesep env) (concat (map (\<lambda>track. path track @ [10]) (tracks p)))"
  have c: "concat (map (\<lambda>track. path track @ [10]) (tracks p)) = concat (map (\<lambda>s. s @ [10]) ?ps)"
    by (simp add: comp_def)
  have plain: "\<forall>s \<in> set ?ps. 10 \<notin> set s \<and> 13 \<notin> set s" "\<forall>s \<in> set ?ps. 10 \<notin> set s"
    "\<forall>s \<in> set ?ps. strip s = s"
    using assms(4) by (auto simp: plain_path_def)
  have "readlines ?content = map (\<lambda>s. s @ [10]) ?ps"
    unfolding c readlines_def write_text_lines [OF plain(2)]
    by (rule read_lines_all [OF plain(1) assms(3)])
  then have "map strip (readlines ?content) = map (\<lambda>s. strip (s @ [10])) ?ps"
    by (simp add: comp_def)
  also have "\<dots> = ?ps"
  proof (rule map_idI)
    fix s assume "s \<in> set ?ps"
    with plain(3) have "strip s = s" by blast
    then show "strip (s @ [10]) = s" by (rule strip_line)
  qed
  finally have s: "map strip (readlines ?content) = ?ps" .
  have sv: "savePlaylist env (Some fp) True p fs = fs(fp \<mapsto> ?content)"
    using assms(1,2) by (simp add: savePlaylist_def)
  show ?thesis
    unfolding sv using assms(2) s
    by (simp add: loadPlaylist_def Let_def path_new_tracks)
qed

text \<open>The example with both files saved and \<open>a.wav\<close> deleted before the load.\<close>

theorem save_load_roundtrip_witness:
  "tracks demo_two \<noteq> [] \<and> demo_list_path \<noteq> []
   \<and> (linesep demo_env = [10] \<or> linesep demo_env = [13, 10])
   \<and> map path (tracks demo_two) = [demo_path, demo_path_b]
   \<and> plain_path demo_path \<and> plain_path demo_path_b
   \<and> map path (tracks (loadPlaylist (demo_env\<lparr>isfile := (\<lambda>p. p = demo_path_b)\<rparr>)
        (Some demo_list_path)
        (savePlaylist demo_env (Some demo_list_path) True demo_two Map.empty)
        (player_init (\<lambda>_. 0)))) = [demo_path_b]"
proof -
  have 1: "tracks demo_two \<noteq> []" by (simp add: demo_two_tracks)
  have 2: "demo_list_path \<noteq> []" by (simp add: demo_list_path_def str_def)
  have 3: "linesep demo_env = [10] \<or> linesep demo_env = [13, 10]" by (simp add: demo_env_def)
  have p: "map path (tracks demo_two) = [demo_path, demo_path_b]"
    by (simp add: demo_two_tracks AudioTrack_init_def)
  have pl: "plain_path demo_path" "plain_path demo_path_b"
    by (simp_all add: plain_path_def strip_def isspace_def demo_path_eval demo_path_b_eval)
  then have 4: "\<forall>t \<in> set (tracks demo_two). plain_path (path t)"
    by (simp add: demo_two_tracks AudioTrack_init_def)
  have 5: "filter (isfile (demo_env\<lparr>isfile := (\<lambda>p. p = demo_path_b)\<rparr>)) (map path (tracks demo_two))
      = [demo_path_b]"
    unfolding p by (simp add: demo_path_eval demo_path_b_eval)
  from save_load_roundtrip [OF 1 2 3 4, of "demo_env\<lparr>isfile := (\<lambda>p. p = demo_path_b)\<rparr>" Map.empty
      "player_init (\<lambda>_. 0)"] 5
  have "map path (tracks (loadPlaylist (demo_env\<lparr>isfile := (\<lambda>p. p = demo_path_b)\<rparr>)
        (Some demo_list_path)
        (savePlaylist demo_env (Some demo_list_path) True demo_two Map.empty)
        (player_init (\<lambda>_. 0)))) = [demo_path_b]"
    by (simp only:)
  with 1 2 3 p pl show ?thesis by blast
qed

text \<open>
  Claim C9 as stated fails for a file whose name ends with a space: the file exists at
  load time, but the loaded playlist is empty.
\<close>

theorem trailing_space_path_is_lost:
  "isfile demo_spaced_env demo_spaced_path
   \<and> map path (tracks demo_spaced) = [demo_spaced_path]
   \<and> filter (isfile demo_spaced_env) (map path (tracks demo_spaced)) = [demo_spaced_path]
   \<and> map path (tracks (loadPlaylist demo_spaced_env (Some demo_list_path)
        (savePlaylist demo_spaced_env (Some demo_list_path) True demo_spaced demo_no_files)
        demo_spaced)) = []"
proof -
  have t: "tracks demo_spaced \<noteq> []" using demo_spaced_tracks by auto
  have c: "concat (map (\<lambda>track. path track @ [10]) (tracks demo_spaced)) = demo_spaced_path @ [10]"
    using demo_spaced_tracks by (cases "tracks demo_spaced") auto
  have l: "demo_list_path \<noteq> []" by (simp add: demo_list_path_def str_def)
  have sv: "savePlaylist demo_spaced_env (Some demo_list_path) True demo_spaced demo_no_files
      = [demo_list_path \<mapsto> demo_spaced_path @ [10]]"
    using t l by (simp add: savePlaylist_def c demo_spaced_env_def demo_env_def write_text_def
        demo_spaced_path_eval demo_no_files_def)
  have r: "map strip (readlines (demo_spaced_path @ [10])) = [demo_path]"
    by (simp add: readlines_def demo_spaced_path_eval demo_path_eval strip_def isspace_def)
  have n: "\<not> isfile demo_spaced_env demo_path"
    by (simp add: demo_spaced_env_def demo_spaced_path_eval demo_path_eval)
  have "tracks (loadPlaylist demo_spaced_env (Some demo_list_path)
        [demo_list_path \<mapsto> demo_spaced_path @ [10]] demo_spaced) = []"
    using l r n by (simp add: loadPlaylist_def Let_def new_tracks_def)
  then show ?thesis
    unfolding sv using demo_spaced_tracks by (simp add: demo_spaced_env_def)
qed

end
